theory Spec2Isabelle
  imports Complex_Main "HOL-Library.Word"
begin

section \<open>Laplace coefficients and their derivatives\<close>

text \<open>
  A shallow embedding of \<^verbatim>\<open>src/laplace/coefficients.py\<close> (\<^verbatim>\<open>_validate_inputs\<close>,
  \<^verbatim>\<open>lc\<close>, \<^verbatim>\<open>dnlc\<close>) and of \<^verbatim>\<open>src/laplace/laplace.py\<close> (\<^verbatim>\<open>lc\<close>, \<^verbatim>\<open>dnlc\<close>).

  Numbers. The arguments \<open>alpha\<close> and \<open>s\<close> are finite doubles passed as floats,
  modelled as reals; \<open>j\<close> and
  \<open>n\<close> are Python integers, modelled as \<open>int\<close>. A computed double is a value of type
  \<open>fl\<close>: a finite real, one of the two infinities, or NaN. Finite arithmetic is exact
  (rounding and overflow of finite results are not modelled); the rules for infinities,
  NaN and division by zero are those of IEEE 754 as numpy applies them to
  \<^verbatim>\<open>float64\<close> scalars (a warning, never an exception). The array
  \<^verbatim>\<open>np.arange(1, j + 1)\<close> holds 64-bit integers, and \<^verbatim>\<open>np.prod\<close> multiplies them
  with wrap-around: that product is a \<open>64 word\<close>.

  The two library routines \<^verbatim>\<open>scipy.special.hyp2f1\<close> and
  \<^verbatim>\<open>scipy.integrate.quad\<close> are not part of the repository; they are parameters of
  the model (the record \<open>numlib\<close>).
\<close>

subsection \<open>Doubles with infinities and NaN\<close>

datatype fl = Fin real | PInf | NInf | NaN

definition signed_inf :: "real \<Rightarrow> fl" where
  "signed_inf x = (if x = 0 then NaN else if 0 < x then PInf else NInf)"

fun fl_neg :: "fl \<Rightarrow> fl" where
  "fl_neg (Fin x) = Fin (- x)"
| "fl_neg PInf = NInf"
| "fl_neg NInf = PInf"
| "fl_neg NaN = NaN"

fun fl_add :: "fl \<Rightarrow> fl \<Rightarrow> fl" where
  "fl_add (Fin x) (Fin y) = Fin (x + y)"
| "fl_add (Fin x) PInf = PInf"
| "fl_add (Fin x) NInf = NInf"
| "fl_add PInf (Fin y) = PInf"
| "fl_add NInf (Fin y) = NInf"
| "fl_add PInf PInf = PInf"
| "fl_add NInf NInf = NInf"
| "fl_add PInf NInf = NaN"
| "fl_add NInf PInf = NaN"
| "fl_add NaN b = NaN"
| "fl_add (Fin x) NaN = NaN"
| "fl_add PInf NaN = NaN"
| "fl_add NInf NaN = NaN"

definition fl_sub :: "fl \<Rightarrow> fl \<Rightarrow> fl" where
  "fl_sub a b = fl_add a (fl_neg b)"

fun fl_mul :: "fl \<Rightarrow> fl \<Rightarrow> fl" where
  "fl_mul (Fin x) (Fin y) = Fin (x * y)"
| "fl_mul (Fin x) PInf = signed_inf x"
| "fl_mul (Fin x) NInf = signed_inf (- x)"
| "fl_mul PInf (Fin y) = signed_inf y"
| "fl_mul NInf (Fin y) = signed_inf (- y)"
| "fl_mul PInf PInf = PInf"
| "fl_mul NInf NInf = PInf"
| "fl_mul PInf NInf = NInf"
| "fl_mul NInf PInf = NInf"
| "fl_mul NaN b = NaN"
| "fl_mul (Fin x) NaN = NaN"
| "fl_mul PInf NaN = NaN"
| "fl_mul NInf NaN = NaN"

text \<open>
  Division of doubles. A zero divisor gives an infinity with the sign of the dividend,
  and NaN for \<open>0 / 0\<close> (the zero divisors of this program are \<open>+0\<close>: a converted integer
  zero).
\<close>

fun fl_div :: "fl \<Rightarrow> fl \<Rightarrow> fl" where
  "fl_div (Fin x) (Fin y) = (if y = 0 then signed_inf x else Fin (x / y))"
| "fl_div (Fin x) PInf = Fin 0"
| "fl_div (Fin x) NInf = Fin 0"
| "fl_div PInf (Fin y) = (if 0 \<le> y then PInf else NInf)"
| "fl_div NInf (Fin y) = (if 0 \<le> y then NInf else PInf)"
| "fl_div PInf PInf = NaN"
| "fl_div NInf NInf = NaN"
| "fl_div PInf NInf = NaN"
| "fl_div NInf PInf = NaN"
| "fl_div NaN b = NaN"
| "fl_div (Fin x) NaN = NaN"
| "fl_div PInf NaN = NaN"
| "fl_div NInf NaN = NaN"

definition is_finite :: "fl \<Rightarrow> bool" where
  "is_finite v = (case v of Fin x \<Rightarrow> True | _ \<Rightarrow> False)"

subsection \<open>The numpy operations the program uses\<close>

text \<open>
  \<^verbatim>\<open>np.power(x, y)\<close> on finite doubles: the C \<^verbatim>\<open>pow\<close>. A zero base with a negative
  exponent gives \<open>+inf\<close>; a negative base with a non-integral exponent gives NaN.
\<close>

definition np_power :: "real \<Rightarrow> real \<Rightarrow> fl" where
  "np_power x y =
     (if 0 < x then Fin (x powr y)
      else if x = 0 then (if y < 0 then PInf else if y = 0 then Fin 1 else Fin 0)
      else if y \<in> \<int> then Fin (x powi \<lfloor>y\<rfloor>)
      else NaN)"

text \<open>
  \<^verbatim>\<open>np.arange(start, stop)\<close> with double arguments: \<open>\<lceil>stop - start\<rceil>\<close> doubles
  \<open>start, start + 1, \<dots>\<close>; with integer arguments: the 64-bit integers
  \<open>start, \<dots>, stop - 1\<close>. The program passes \<open>stop = s + j\<close>, and the model takes
  this sum and the difference \<open>stop - start\<close> exactly. The doubles give the same for a
  half-integer \<open>s\<close>, the documented domain; for other \<open>s\<close> the rounded sum can give
  one element more (\<^verbatim>\<open>np.arange(1.2, 1.2 + 1)\<close> has two elements), which the model does
  not show.
\<close>

definition arange :: "real \<Rightarrow> real \<Rightarrow> real list" where
  "arange start stop = map (\<lambda>i. start + real i) [0 ..< nat \<lceil>stop - start\<rceil>]"

definition arange_int :: "int \<Rightarrow> int \<Rightarrow> 64 word list" where
  "arange_int start stop = map word_of_int [start .. stop - 1]"

text \<open>
  \<^verbatim>\<open>np.prod\<close>: the product of the elements, 1 for an empty array; on 64-bit
  integers the multiplication wraps around. The array \<^verbatim>\<open>np.arange(s, s + j)\<close> is an
  array of doubles because \<open>s\<close> is a float (the annotation \<^verbatim>\<open>s: float\<close>); a call that
  passes \<open>s\<close> as a Python integer gets an array of 64-bit integers there as well, and
  is not covered by the model.
\<close>

definition np_prod :: "real list \<Rightarrow> real" where
  "np_prod xs = foldl (\<lambda>acc x. acc * x) 1 xs"

definition np_prod_int :: "64 word list \<Rightarrow> 64 word" where
  "np_prod_int xs = foldl (\<lambda>acc x. acc * x) 1 xs"

text \<open>The library routines, as parameters: \<open>hyp2f1 a b c z\<close> and
  \<open>quad f lo hi\<close>, which returns the estimate and the error bound.\<close>

record numlib =
  hyp2f1 :: "real \<Rightarrow> real \<Rightarrow> real \<Rightarrow> real \<Rightarrow> fl"
  quad :: "(real \<Rightarrow> fl) \<Rightarrow> real \<Rightarrow> real \<Rightarrow> fl \<times> fl"

subsection \<open>Input validation\<close>

text \<open>
  The three \<^verbatim>\<open>ValueError\<close>s of \<^verbatim>\<open>_validate_inputs\<close>: the method error, and the
  two domain errors, told apart by their message.
\<close>

datatype domain_message = Alpha_between_0_and_1 | S_positive_half_integer

datatype error = InvalidMethod | InvalidDomain domain_message

definition validate_inputs :: "real \<Rightarrow> real \<Rightarrow> string \<Rightarrow> error + unit" where
  "validate_inputs alpha s method =
     (if method \<notin> set [''hyper'', ''brute''] then Inl InvalidMethod
      else if alpha > 1 then Inl (InvalidDomain Alpha_between_0_and_1)
      else if s < 0 then Inl (InvalidDomain S_positive_half_integer)
      else Inr ())"

subsection \<open>The coefficient: \<^verbatim>\<open>lc\<close>\<close>

text \<open>The closed form (\<^verbatim>\<open>method == "hyper"\<close>), after validation.\<close>

definition lc_hyper :: "numlib \<Rightarrow> real \<Rightarrow> real \<Rightarrow> int \<Rightarrow> fl" where
  "lc_hyper L alpha s j0 =
     (let j = \<bar>j0\<bar>;
          p = np_prod_int (arange_int 1 (j + 1));
          q = np_prod (arange s (s + of_int j))
      in fl_mul
           (fl_mul
              (fl_mul (Fin 2) (fl_div (Fin q) (Fin (of_int (sint p)))))
              (np_power alpha (of_int j)))
           (hyp2f1 L s (s + of_int j) (of_int (j + 1)) (alpha * alpha)))"

text \<open>The quadrature (\<^verbatim>\<open>method == "brute"\<close>), after validation.\<close>

definition integrand :: "real \<Rightarrow> real \<Rightarrow> int \<Rightarrow> real \<Rightarrow> fl" where
  "integrand alpha s j t =
     fl_mul (Fin (cos (of_int j * t)))
            (np_power (1 - 2 * alpha * cos t + alpha * alpha) (- s))"

definition lc_brute :: "numlib \<Rightarrow> real \<Rightarrow> real \<Rightarrow> int \<Rightarrow> fl" where
  "lc_brute L alpha s j =
     (let (result, err) = quad L (integrand alpha s j) 0 (2 * pi)
      in fl_div result (Fin pi))"

text \<open>\<^verbatim>\<open>lc\<close> of \<^verbatim>\<open>coefficients.py\<close>.\<close>

definition lc :: "numlib \<Rightarrow> real \<Rightarrow> real \<Rightarrow> int \<Rightarrow> string \<Rightarrow> error + fl" where
  "lc L alpha s j method =
     (case validate_inputs alpha s method of
        Inl e \<Rightarrow> Inl e
      | Inr u \<Rightarrow>
          if method = ''hyper'' then Inr (lc_hyper L alpha s j)
          else Inr (lc_brute L alpha s j))"

text \<open>
  \<^verbatim>\<open>lc\<close> of \<^verbatim>\<open>laplace.py\<close>: the same three checks written inline, \<^verbatim>\<open>np.abs\<close> for
  \<^verbatim>\<open>abs\<close>, and a second test \<^verbatim>\<open>method == "brute"\<close>, which the first check has
  made true whenever it is reached.
\<close>

definition lc_laplace :: "numlib \<Rightarrow> real \<Rightarrow> real \<Rightarrow> int \<Rightarrow> string \<Rightarrow> error + fl" where
  "lc_laplace L a s j method =
     (if method \<notin> set [''hyper'', ''brute''] then Inl InvalidMethod
      else if a > 1 then Inl (InvalidDomain Alpha_between_0_and_1)
      else if s < 0 then Inl (InvalidDomain S_positive_half_integer)
      else if method = ''hyper'' then Inr (lc_hyper L a s j)
      else Inr (lc_brute L a s j))"

subsection \<open>The derivative: \<^verbatim>\<open>dnlc\<close>\<close>

text \<open>
  An arithmetic operation on two results that may be exceptions: the operands are
  evaluated from left to right, and the first exception is the one raised.
\<close>

definition lift2 :: "(fl \<Rightarrow> fl \<Rightarrow> fl) \<Rightarrow> error + fl \<Rightarrow> error + fl \<Rightarrow> error + fl" where
  "lift2 f x y =
     (case x of Inl e \<Rightarrow> Inl e
      | Inr u \<Rightarrow> (case y of Inl e \<Rightarrow> Inl e | Inr v \<Rightarrow> Inr (f u v)))"

text \<open>\<^verbatim>\<open>dnlc\<close> of \<^verbatim>\<open>coefficients.py\<close>.\<close>

function dnlc :: "numlib \<Rightarrow> real \<Rightarrow> real \<Rightarrow> int \<Rightarrow> int \<Rightarrow> string \<Rightarrow> error + fl" where
  "dnlc L alpha s j n method =
     (case validate_inputs alpha s method of
        Inl e \<Rightarrow> Inl e
      | Inr u \<Rightarrow>
          if n \<le> 0 then
            lift2 fl_mul (Inr (Fin (of_int (max 0 (n + 1))))) (lc L alpha s j method)
          else
            lift2 fl_mul (Inr (Fin s))
              (lift2 fl_sub
                 (lift2 fl_add
                    (lift2 fl_sub
                       (dnlc L alpha (s + 1) (j - 1) (n - 1) method)
                       (lift2 fl_mul (Inr (Fin (2 * alpha)))
                          (dnlc L alpha (s + 1) j (n - 1) method)))
                    (dnlc L alpha (s + 1) (j + 1) (n - 1) method))
                 (lift2 fl_mul (Inr (Fin (of_int (2 * (n - 1)))))
                    (dnlc L alpha (s + 1) j (n - 2) method))))"
  by pat_completeness auto
termination
  by (relation "measure (\<lambda>(L, alpha, s, j, n, method). nat n)") auto

text \<open>\<^verbatim>\<open>dnlc\<close> of \<^verbatim>\<open>laplace.py\<close>: no validation of its own.\<close>

function dnlc_laplace :: "numlib \<Rightarrow> real \<Rightarrow> real \<Rightarrow> int \<Rightarrow> int \<Rightarrow> string \<Rightarrow> error + fl" where
  "dnlc_laplace L a s j n method =
     (if n \<le> 0 then
        lift2 fl_mul (Inr (Fin (of_int (max 0 (n + 1))))) (lc_laplace L a s j method)
      else
        lift2 fl_mul (Inr (Fin s))
          (lift2 fl_sub
             (lift2 fl_add
                (lift2 fl_sub
                   (dnlc_laplace L a (s + 1) (j - 1) (n - 1) method)
                   (lift2 fl_mul (Inr (Fin (2 * a)))
                      (dnlc_laplace L a (s + 1) j (n - 1) method)))
                (dnlc_laplace L a (s + 1) (j + 1) (n - 1) method))
             (lift2 fl_mul (Inr (Fin (of_int (2 * (n - 1)))))
                (dnlc_laplace L a (s + 1) j (n - 2) method))))"
  by pat_completeness auto
termination
  by (relation "measure (\<lambda>(L, a, s, j, n, method). nat n)") auto

declare dnlc.simps [simp del]
declare dnlc_laplace.simps [simp del]

subsection \<open>Auxiliary notions used in the statements\<close>

text \<open>The two method identifiers the validation accepts.\<close>

definition recognized :: "string \<Rightarrow> bool" where
  "recognized method = (method = ''hyper'' \<or> method = ''brute'')"

text \<open>Whether a result is a domain error (with either message).\<close>

definition is_InvalidDomain :: "error + fl \<Rightarrow> bool" where
  "is_InvalidDomain r = (case r of Inl (InvalidDomain d) \<Rightarrow> True | _ \<Rightarrow> False)"

text \<open>
  A concrete pair of library routines, used where a statement is instantiated at
  concrete arguments: a hypergeometric routine that always answers 1 and a quadrature
  that answers the integrand's value at the lower bound. The general theorems hold for
  every \<open>numlib\<close>.
\<close>

definition sample_lib :: numlib where
  "sample_lib = \<lparr> hyp2f1 = (\<lambda>a b c z. Fin 1), quad = (\<lambda>f lo hi. (f lo, Fin 0)) \<rparr>"

subsection \<open>The closed form as the specification words it\<close>

text \<open>
  The specification's formula for the closed-form strategy, for comparison with
  \<open>lc_hyper\<close>: with \<open>j' = |j|\<close>, twice the rising factorial \<open>(s)\<^bsub>j'\<^esub>\<close> over the
  factorial \<open>j'!\<close>, times \<open>alpha ^ j'\<close>, times the hypergeometric function at
  \<open>alpha\<^sup>2\<close>. Here \<open>pochhammer s k\<close> is the product \<open>s (s + 1) \<dots> (s + k - 1)\<close> and
  \<open>fact k\<close> the factorial, both 1 for \<open>k = 0\<close>, and neither wraps around.
\<close>

definition lc_closed_form_spec :: "numlib \<Rightarrow> real \<Rightarrow> real \<Rightarrow> int \<Rightarrow> fl" where
  "lc_closed_form_spec L alpha s j =
     (let j' = nat \<bar>j\<bar>
      in fl_mul
           (fl_mul
              (fl_mul (Fin 2) (fl_div (Fin (pochhammer s j')) (Fin (fact j'))))
              (Fin (alpha ^ j')))
           (hyp2f1 L s (s + real j') (real j' + 1) (alpha * alpha)))"

subsection \<open>The calls \<^verbatim>\<open>dnlc\<close> makes\<close>

text \<open>
  The arguments \<open>(alpha, s, j, n, method)\<close> of a call of \<^verbatim>\<open>dnlc\<close> in
  \<^verbatim>\<open>coefficients.py\<close>, and the relation between a call and the four calls its body
  makes. A call recurses only after its own validation has passed and when \<open>n > 0\<close>.
\<close>

type_synonym call = "real \<times> real \<times> int \<times> int \<times> string"

inductive dnlc_subcall :: "call \<Rightarrow> call \<Rightarrow> bool" where
  first: "validate_inputs alpha s method = Inr () \<Longrightarrow> 0 < n \<Longrightarrow>
      dnlc_subcall (alpha, s, j, n, method) (alpha, s + 1, j - 1, n - 1, method)"
| second: "validate_inputs alpha s method = Inr () \<Longrightarrow> 0 < n \<Longrightarrow>
      dnlc_subcall (alpha, s, j, n, method) (alpha, s + 1, j, n - 1, method)"
| third: "validate_inputs alpha s method = Inr () \<Longrightarrow> 0 < n \<Longrightarrow>
      dnlc_subcall (alpha, s, j, n, method) (alpha, s + 1, j + 1, n - 1, method)"
| fourth: "validate_inputs alpha s method = Inr () \<Longrightarrow> 0 < n \<Longrightarrow>
      dnlc_subcall (alpha, s, j, n, method) (alpha, s + 1, j, n - 2, method)"

text \<open>
  \<^verbatim>\<open>dnlc\<close> run with room for \<open>k\<close> nested frames of \<^verbatim>\<open>dnlc\<close> on the call stack:
  \<open>None\<close> when some call would need a frame beyond the bound, otherwise the result.
  An exception raised by an operand ends the evaluation, so operands to its right are
  not run; running out of frames in an operand ends it likewise.
\<close>

definition opt_lift2 ::
  "(fl \<Rightarrow> fl \<Rightarrow> fl) \<Rightarrow> (error + fl) option \<Rightarrow> (error + fl) option \<Rightarrow> (error + fl) option" where
  "opt_lift2 f x y =
     (case x of
        None \<Rightarrow> None
      | Some (Inl e) \<Rightarrow> Some (Inl e)
      | Some (Inr u) \<Rightarrow>
          (case y of
             None \<Rightarrow> None
           | Some (Inl e) \<Rightarrow> Some (Inl e)
           | Some (Inr v) \<Rightarrow> Some (Inr (f u v))))"

fun dnlc_depth ::
  "nat \<Rightarrow> numlib \<Rightarrow> real \<Rightarrow> real \<Rightarrow> int \<Rightarrow> int \<Rightarrow> string \<Rightarrow> (error + fl) option" where
  "dnlc_depth 0 L alpha s j n method = None"
| "dnlc_depth (Suc k) L alpha s j n method =
     (case validate_inputs alpha s method of
        Inl e \<Rightarrow> Some (Inl e)
      | Inr u \<Rightarrow>
          if n \<le> 0 then
            Some (lift2 fl_mul (Inr (Fin (of_int (max 0 (n + 1))))) (lc L alpha s j method))
          else
            opt_lift2 fl_mul (Some (Inr (Fin s)))
              (opt_lift2 fl_sub
                 (opt_lift2 fl_add
                    (opt_lift2 fl_sub
                       (dnlc_depth k L alpha (s + 1) (j - 1) (n - 1) method)
                       (opt_lift2 fl_mul (Some (Inr (Fin (2 * alpha))))
                          (dnlc_depth k L alpha (s + 1) j (n - 1) method)))
                    (dnlc_depth k L alpha (s + 1) (j + 1) (n - 1) method))
                 (opt_lift2 fl_mul (Some (Inr (Fin (of_int (2 * (n - 1))))))
                    (dnlc_depth k L alpha (s + 1) j (n - 2) method))))"


subsection \<open>Agreement within a tolerance\<close>

text \<open>
  The comparison \<^verbatim>\<open>abs(x - y) < tol\<close> of the test suite, on the results of two calls.
  It is false when a call raised, and false when the difference is an infinity or NaN
  (no comparison with NaN holds, and \<open>inf < tol\<close> is false).
\<close>

definition within_tolerance :: "real \<Rightarrow> error + fl \<Rightarrow> error + fl \<Rightarrow> bool" where
  "within_tolerance tol x y =
     (case lift2 fl_sub x y of
        Inr (Fin d) \<Rightarrow> \<bar>d\<bar> < tol
      | _ \<Rightarrow> False)"

section \<open>Properties\<close>

subsection \<open>Validation\<close>

lemma validate_ok_iff:
  "validate_inputs alpha s method = Inr () \<longleftrightarrow> recognized method \<and> alpha \<le> 1 \<and> 0 \<le> s"
  by (auto simp: validate_inputs_def recognized_def)

lemma validate_method_iff:
  "validate_inputs alpha s method = Inl InvalidMethod \<longleftrightarrow> \<not> recognized method"
  by (auto simp: validate_inputs_def recognized_def)

lemma validate_domain_iff:
  "(\<exists>d. validate_inputs alpha s method = Inl (InvalidDomain d)) \<longleftrightarrow>
     recognized method \<and> (1 < alpha \<or> s < 0)"
  by (auto simp: validate_inputs_def recognized_def)

lemma validate_shift:
  "validate_inputs alpha s method = Inr () \<Longrightarrow> validate_inputs alpha (s + 1) method = Inr ()"
  by (auto simp: validate_inputs_def split: if_splits)

lemma lc_error_iff: "lc L alpha s j method = Inl e \<longleftrightarrow> validate_inputs alpha s method = Inl e"
  by (auto simp: lc_def split: sum.splits)

lemma lc_valid:
  "validate_inputs alpha s method = Inr () \<Longrightarrow>
     lc L alpha s j method = Inr (if method = ''hyper'' then lc_hyper L alpha s j else lc_brute L alpha s j)"
  by (simp add: lc_def)

lemma dnlc_invalid:
  "validate_inputs alpha s method = Inl e \<Longrightarrow> dnlc L alpha s j n method = Inl e"
  by (subst dnlc.simps) simp

lemma dnlc_valid_Inr:
  "validate_inputs alpha s method = Inr () \<Longrightarrow> \<exists>v. dnlc L alpha s j n method = Inr v"
proof (induction L alpha s j n "method" rule: dnlc.induct)
  case (1 L alpha s j n m)
  note ok = \<open>validate_inputs alpha s m = Inr ()\<close>
  show ?case
  proof (cases "n \<le> 0")
    case True
    then show ?thesis
      by (subst dnlc.simps) (simp add: ok lc_valid lift2_def)
  next
    case False
    from "1.IH"(1)[OF ok False validate_shift[OF ok]]
    obtain d1 where d1: "dnlc L alpha (s + 1) (j - 1) (n - 1) m = Inr d1" by blast
    from "1.IH"(2)[OF ok False validate_shift[OF ok]]
    obtain d2 where d2: "dnlc L alpha (s + 1) j (n - 1) m = Inr d2" by blast
    from "1.IH"(3)[OF ok False validate_shift[OF ok]]
    obtain d3 where d3: "dnlc L alpha (s + 1) (j + 1) (n - 1) m = Inr d3" by blast
    from "1.IH"(4)[OF ok False validate_shift[OF ok]]
    obtain d4 where d4: "dnlc L alpha (s + 1) j (n - 2) m = Inr d4" by blast
    show ?thesis
      by (subst dnlc.simps) (simp add: ok False d1 d2 d3 d4 lift2_def)
  qed
qed

lemma dnlc_error_iff:
  "dnlc L alpha s j n method = Inl e \<longleftrightarrow> validate_inputs alpha s method = Inl e"
proof (cases "validate_inputs alpha s method")
  case (Inl e')
  then show ?thesis by (simp add: dnlc_invalid)
next
  case (Inr u)
  then have "validate_inputs alpha s method = Inr ()" by simp
  from dnlc_valid_Inr[OF this, of L j n] Inr show ?thesis by auto
qed

text \<open>
  Claim C4, as the code has it. \<^verbatim>\<open>lc\<close> and \<^verbatim>\<open>dnlc\<close> fail with the method error
  exactly when the method is not one of \<^verbatim>\<open>"hyper"\<close>, \<^verbatim>\<open>"brute"\<close>. They fail with a
  domain error exactly when the method is recognized and \<open>alpha > 1\<close> or \<open>s < 0\<close>: the
  method is checked first, so an unrecognized method with \<open>alpha > 1\<close> gives the method
  error. Every recognized method with \<open>alpha \<le> 1\<close> (negative \<open>alpha\<close> included) and
  \<open>s \<ge> 0\<close> (\<open>s = 0\<close> included) passes and a value is returned. The statement holds for
  every pair of library routines: the errors do not depend on them.
\<close>

theorem validation_errors:
  "(lc L alpha s j method = Inl InvalidMethod \<longleftrightarrow> \<not> recognized method) \<and>
   (is_InvalidDomain (lc L alpha s j method) \<longleftrightarrow> recognized method \<and> (1 < alpha \<or> s < 0)) \<and>
   (dnlc L alpha s j n method = Inl InvalidMethod \<longleftrightarrow> \<not> recognized method) \<and>
   (is_InvalidDomain (dnlc L alpha s j n method) \<longleftrightarrow> recognized method \<and> (1 < alpha \<or> s < 0)) \<and>
   (recognized method \<and> alpha \<le> 1 \<and> 0 \<le> s \<longrightarrow>
      (\<exists>v. lc L alpha s j method = Inr v) \<and> (\<exists>v. dnlc L alpha s j n method = Inr v))"
proof -
  have dom: "is_InvalidDomain r \<longleftrightarrow> (\<exists>d. r = Inl (InvalidDomain d))" for r
    by (auto simp: is_InvalidDomain_def split: sum.splits error.splits)
  have ok: "recognized method \<and> alpha \<le> 1 \<and> 0 \<le> s \<Longrightarrow>
      (\<exists>v. lc L alpha s j method = Inr v) \<and> (\<exists>v. dnlc L alpha s j n method = Inr v)"
    using lc_valid[of alpha s "method" L j] dnlc_valid_Inr[of alpha s "method" L j n]
    by (simp add: validate_ok_iff)
  show ?thesis
    using ok by (simp add: dom lc_error_iff dnlc_error_iff validate_method_iff validate_domain_iff)
qed

text \<open>
  The claim as worded (a domain error exactly when \<open>alpha > 1\<close> or \<open>s < 0\<close>) fails at
  \<^verbatim>\<open>lc(1.5, 0.5, 0, "bogus")\<close>: there \<open>alpha > 1\<close>, and the error is the method error.
\<close>

theorem validation_errors_counterexample:
  "\<not> (is_InvalidDomain (lc sample_lib (3/2) (1/2) 0 ''bogus'') \<longleftrightarrow> (1 < (3/2::real) \<or> (1/2::real) < 0))"
  by (simp add: lc_def validate_inputs_def is_InvalidDomain_def)

theorem validation_errors_witness:
  "recognized ''hyper'' \<and> (-1::real) \<le> 1 \<and> (0::real) \<le> 0 \<and>
   (\<exists>v. lc sample_lib (-1) 0 3 ''hyper'' = Inr v) \<and>
   (\<exists>v. dnlc sample_lib (-1) 0 3 2 ''hyper'' = Inr v) \<and>
   lc sample_lib (3/2) (1/2) 0 ''bogus'' = Inl InvalidMethod \<and>
   is_InvalidDomain (dnlc sample_lib (3/2) (1/2) 0 2 ''brute'')"
  using validation_errors[of sample_lib "-1" 0 3 "''hyper''" 2]
    validation_errors[of sample_lib "3/2" "1/2" 0 "''bogus''" 2]
    validation_errors[of sample_lib "3/2" "1/2" 0 "''brute''" 2]
  by (simp add: recognized_def)


subsection \<open>Unfolding the recursion; the two modules agree\<close>

lemma dnlc_rec:
  assumes ok: "validate_inputs alpha s method = Inr ()" and n: "0 < n"
    and d1: "dnlc L alpha (s + 1) (j - 1) (n - 1) method = Inr d1"
    and d2: "dnlc L alpha (s + 1) j (n - 1) method = Inr d2"
    and d3: "dnlc L alpha (s + 1) (j + 1) (n - 1) method = Inr d3"
    and d4: "dnlc L alpha (s + 1) j (n - 2) method = Inr d4"
  shows "dnlc L alpha s j n method =
     Inr (fl_mul (Fin s)
            (fl_sub (fl_add (fl_sub d1 (fl_mul (Fin (2 * alpha)) d2)) d3)
                    (fl_mul (Fin (of_int (2 * (n - 1)))) d4)))"
  using n by (subst dnlc.simps) (simp add: ok d1 d2 d3 d4 lift2_def)

lemma dnlc_laplace_rec:
  assumes n: "0 < n"
    and d1: "dnlc_laplace L a (s + 1) (j - 1) (n - 1) method = Inr d1"
    and d2: "dnlc_laplace L a (s + 1) j (n - 1) method = Inr d2"
    and d3: "dnlc_laplace L a (s + 1) (j + 1) (n - 1) method = Inr d3"
    and d4: "dnlc_laplace L a (s + 1) j (n - 2) method = Inr d4"
  shows "dnlc_laplace L a s j n method =
     Inr (fl_mul (Fin s)
            (fl_sub (fl_add (fl_sub d1 (fl_mul (Fin (2 * a)) d2)) d3)
                    (fl_mul (Fin (of_int (2 * (n - 1)))) d4)))"
  using n by (subst dnlc_laplace.simps) (simp add: d1 d2 d3 d4 lift2_def)

lemma lc_laplace_eq_lc: "lc_laplace L a s j method = lc L a s j method"
  by (simp add: lc_laplace_def lc_def validate_inputs_def)

lemma dnlc_laplace_eq_dnlc:
  "validate_inputs alpha s method = Inr () \<Longrightarrow>
     dnlc_laplace L alpha s j n method = dnlc L alpha s j n method"
proof (induction L alpha s j n "method" rule: dnlc.induct)
  case (1 L alpha s j n m)
  note ok = \<open>validate_inputs alpha s m = Inr ()\<close>
  note ok' = validate_shift[OF ok]
  show ?case
  proof (cases "n \<le> 0")
    case True
    then show ?thesis
      by (subst dnlc.simps, subst dnlc_laplace.simps) (simp add: ok lc_laplace_eq_lc)
  next
    case False
    show ?thesis
      by (subst dnlc.simps, subst dnlc_laplace.simps)
         (simp add: ok False "1.IH"(1)[OF ok False ok'] "1.IH"(2)[OF ok False ok']
            "1.IH"(3)[OF ok False ok'] "1.IH"(4)[OF ok False ok'])
  qed
qed

subsection \<open>The recurrence\<close>

text \<open>
  Claim C1. For valid input and \<open>n > 0\<close>, the four sub-calls (same \<open>alpha\<close> and method,
  \<open>s + 1\<close>, orders \<open>n - 1\<close>, \<open>n - 1\<close>, \<open>n - 1\<close>, \<open>n - 2\<close>) return values \<open>d1\<close>, \<open>d2\<close>,
  \<open>d3\<close>, \<open>d4\<close>, and the result is \<open>s * (d1 - 2 * alpha * d2 + d3 - 2 * (n - 1) * d4)\<close>; in
  both modules.
\<close>

theorem dnlc_recurrence:
  assumes ok: "validate_inputs alpha s method = Inr ()" and n: "0 < n"
  shows "\<exists>d1 d2 d3 d4.
           dnlc L alpha (s + 1) (j - 1) (n - 1) method = Inr d1 \<and>
           dnlc L alpha (s + 1) j (n - 1) method = Inr d2 \<and>
           dnlc L alpha (s + 1) (j + 1) (n - 1) method = Inr d3 \<and>
           dnlc L alpha (s + 1) j (n - 2) method = Inr d4 \<and>
           dnlc_laplace L alpha (s + 1) (j - 1) (n - 1) method = Inr d1 \<and>
           dnlc_laplace L alpha (s + 1) j (n - 1) method = Inr d2 \<and>
           dnlc_laplace L alpha (s + 1) (j + 1) (n - 1) method = Inr d3 \<and>
           dnlc_laplace L alpha (s + 1) j (n - 2) method = Inr d4 \<and>
           dnlc L alpha s j n method =
             Inr (fl_mul (Fin s)
                    (fl_sub (fl_add (fl_sub d1 (fl_mul (Fin (2 * alpha)) d2)) d3)
                            (fl_mul (Fin (of_int (2 * (n - 1)))) d4))) \<and>
           dnlc_laplace L alpha s j n method =
             Inr (fl_mul (Fin s)
                    (fl_sub (fl_add (fl_sub d1 (fl_mul (Fin (2 * alpha)) d2)) d3)
                            (fl_mul (Fin (of_int (2 * (n - 1)))) d4)))"
proof -
  note ok' = validate_shift[OF ok]
  obtain d1 where d1: "dnlc L alpha (s + 1) (j - 1) (n - 1) method = Inr d1"
    using dnlc_valid_Inr[OF ok'] by blast
  obtain d2 where d2: "dnlc L alpha (s + 1) j (n - 1) method = Inr d2"
    using dnlc_valid_Inr[OF ok'] by blast
  obtain d3 where d3: "dnlc L alpha (s + 1) (j + 1) (n - 1) method = Inr d3"
    using dnlc_valid_Inr[OF ok'] by blast
  obtain d4 where d4: "dnlc L alpha (s + 1) j (n - 2) method = Inr d4"
    using dnlc_valid_Inr[OF ok'] by blast
  note e = dnlc_laplace_eq_dnlc[OF ok']
  have l1: "dnlc_laplace L alpha (s + 1) (j - 1) (n - 1) method = Inr d1" by (simp add: e d1)
  have l2: "dnlc_laplace L alpha (s + 1) j (n - 1) method = Inr d2" by (simp add: e d2)
  have l3: "dnlc_laplace L alpha (s + 1) (j + 1) (n - 1) method = Inr d3" by (simp add: e d3)
  have l4: "dnlc_laplace L alpha (s + 1) j (n - 2) method = Inr d4" by (simp add: e d4)
  from dnlc_rec[OF ok n d1 d2 d3 d4] dnlc_laplace_rec[OF n l1 l2 l3 l4] d1 d2 d3 d4 l1 l2 l3 l4
  show ?thesis by blast
qed

lemma validate_half: "validate_inputs (1/2) (1/2) ''hyper'' = Inr ()"
  by (simp add: validate_inputs_def)

theorem dnlc_recurrence_witness:
  "validate_inputs (1/2) (1/2) ''hyper'' = Inr () \<and> (0::int) < 1 \<and>
   (\<exists>d1 d2 d3 d4.
      dnlc sample_lib (1/2) (1/2 + 1) (0 - 1) (1 - 1) ''hyper'' = Inr d1 \<and>
      dnlc sample_lib (1/2) (1/2 + 1) 0 (1 - 1) ''hyper'' = Inr d2 \<and>
      dnlc sample_lib (1/2) (1/2 + 1) (0 + 1) (1 - 1) ''hyper'' = Inr d3 \<and>
      dnlc sample_lib (1/2) (1/2 + 1) 0 (1 - 2) ''hyper'' = Inr d4 \<and>
      dnlc sample_lib (1/2) (1/2) 0 1 ''hyper'' =
        Inr (fl_mul (Fin (1/2))
               (fl_sub (fl_add (fl_sub d1 (fl_mul (Fin (2 * (1/2))) d2)) d3)
                       (fl_mul (Fin (of_int (2 * (1 - 1)))) d4))))"
proof -
  have n: "(0::int) < 1" by simp
  from dnlc_recurrence[OF validate_half n, of sample_lib 0] validate_half n
  show ?thesis by blast
qed

subsection \<open>Special values of the double arithmetic\<close>

lemma fl_mul_one: "fl_mul (Fin 1) v = v"
  by (cases v) (simp_all add: signed_inf_def)

lemma fl_mul_zero: "fl_mul (Fin 0) v = (if is_finite v then Fin 0 else NaN)"
  by (cases v) (simp_all add: signed_inf_def is_finite_def)

subsection \<open>Evenness in the harmonic index\<close>

lemma integrand_neg: "integrand alpha s (- j) = integrand alpha s j"
  by (rule ext) (simp add: integrand_def)

lemma lc_brute_neg: "lc_brute L alpha s (- j) = lc_brute L alpha s j"
  by (simp add: lc_brute_def integrand_neg)

lemma lc_hyper_neg: "lc_hyper L alpha s (- j) = lc_hyper L alpha s j"
  by (simp add: lc_hyper_def)

text \<open>
  Claim C6. \<^verbatim>\<open>lc\<close> returns the same result for \<open>j\<close> and \<open>- j\<close>, with either method and
  in both modules: the closed form computes with \<open>|j|\<close> only, and the integrand of the
  quadrature is the same function of \<open>t\<close> for \<open>j\<close> and \<open>- j\<close>, the cosine being even.
\<close>

theorem lc_even_in_j:
  "lc L alpha s (- j) method = lc L alpha s j method \<and>
   lc_laplace L alpha s (- j) method = lc_laplace L alpha s j method \<and>
   lc_hyper L alpha s j = lc_hyper L alpha s \<bar>j\<bar> \<and>
   integrand alpha s (- j) t = integrand alpha s j t"
proof -
  have h: "lc_hyper L alpha s j = lc_hyper L alpha s \<bar>j\<bar>"
    by (simp add: lc_hyper_def)
  have a: "lc L alpha s (- j) method = lc L alpha s j method"
    unfolding lc_def lc_brute_neg lc_hyper_neg ..
  from a h show ?thesis
    by (simp add: lc_laplace_eq_lc integrand_neg)
qed

subsection \<open>The two modules\<close>

text \<open>
  Claim C7. For valid input, \<^verbatim>\<open>lc\<close> and \<^verbatim>\<open>dnlc\<close> of \<^verbatim>\<open>coefficients.py\<close> return
  what \<^verbatim>\<open>lc\<close> and \<^verbatim>\<open>dnlc\<close> of \<^verbatim>\<open>laplace.py\<close> return. (On invalid input both raise
  a \<^verbatim>\<open>ValueError\<close>, with messages that differ in their wording; the claim is about
  valid input.)
\<close>

theorem modules_agree:
  assumes "validate_inputs alpha s method = Inr ()"
  shows "lc_laplace L alpha s j method = lc L alpha s j method \<and>
         dnlc_laplace L alpha s j n method = dnlc L alpha s j n method"
  using assms by (simp add: lc_laplace_eq_lc dnlc_laplace_eq_dnlc)

theorem modules_agree_witness:
  "validate_inputs (1/2) (1/2) ''hyper'' = Inr () \<and>
   lc_laplace sample_lib (1/2) (1/2) 3 ''hyper'' = lc sample_lib (1/2) (1/2) 3 ''hyper'' \<and>
   dnlc_laplace sample_lib (1/2) (1/2) 3 2 ''hyper'' = dnlc sample_lib (1/2) (1/2) 3 2 ''hyper''"
  using modules_agree[OF validate_half, of sample_lib 3 2] validate_half by blast

subsection \<open>Orders \<open>n \<le> 0\<close>\<close>

lemma dnlc_base:
  "n \<le> 0 \<Longrightarrow> dnlc L alpha s j n method =
     (case validate_inputs alpha s method of
        Inl e \<Rightarrow> Inl e
      | Inr u \<Rightarrow> (case lc L alpha s j method of
                   Inl e \<Rightarrow> Inl e
                 | Inr v \<Rightarrow> Inr (fl_mul (Fin (of_int (max 0 (n + 1)))) v)))"
  by (subst dnlc.simps) (simp add: lift2_def split: sum.splits)

lemma dnlc_laplace_base:
  "n \<le> 0 \<Longrightarrow> dnlc_laplace L a s j n method =
     (case lc_laplace L a s j method of
        Inl e \<Rightarrow> Inl e
      | Inr v \<Rightarrow> Inr (fl_mul (Fin (of_int (max 0 (n + 1)))) v))"
  by (subst dnlc_laplace.simps) (simp add: lift2_def split: sum.splits)

text \<open>
  Claim C10. For \<open>n < 0\<close>, \<^verbatim>\<open>dnlc\<close> does not return 0.0 unconditionally: it validates
  its inputs, calls \<^verbatim>\<open>lc\<close>, and multiplies the value by \<open>max(0, n + 1) = 0\<close>. A failed
  validation is raised, and an exception of \<^verbatim>\<open>lc\<close> is passed on (in \<^verbatim>\<open>laplace.py\<close>,
  where \<^verbatim>\<open>dnlc\<close> has no check of its own, every validation error comes from
  \<^verbatim>\<open>lc\<close>).
\<close>

theorem negative_order_validates_and_evaluates:
  assumes "n < 0"
  shows "dnlc L alpha s j n method =
           (case validate_inputs alpha s method of
              Inl e \<Rightarrow> Inl e
            | Inr u \<Rightarrow> (case lc L alpha s j method of
                         Inl e \<Rightarrow> Inl e
                       | Inr v \<Rightarrow> Inr (fl_mul (Fin 0) v))) \<and>
         dnlc_laplace L alpha s j n method =
           (case lc_laplace L alpha s j method of
              Inl e \<Rightarrow> Inl e
            | Inr v \<Rightarrow> Inr (fl_mul (Fin 0) v)) \<and>
         (validate_inputs alpha s method = Inl e \<longrightarrow>
            dnlc L alpha s j n method = Inl e \<and> dnlc_laplace L alpha s j n method = Inl e)"
proof -
  have n: "n \<le> 0" and m: "real_of_int (max 0 (n + 1)) = 0" using assms by simp_all
  note d = dnlc_base[OF n, of L alpha s j "method", unfolded m]
  note l = dnlc_laplace_base[OF n, of L alpha s j "method", unfolded m]
  have a: "validate_inputs alpha s method = Inl e \<Longrightarrow>
             dnlc L alpha s j n method = Inl e \<and> dnlc_laplace L alpha s j n method = Inl e"
    unfolding l by (simp add: dnlc_invalid lc_laplace_eq_lc lc_error_iff[THEN iffD2])
  from d l a show ?thesis by blast
qed

theorem negative_order_validates_and_evaluates_witness:
  "(- 1 :: int) < 0 \<and>
   dnlc sample_lib (3/2) (1/2) 0 (- 1) ''hyper'' = Inl (InvalidDomain Alpha_between_0_and_1) \<and>
   dnlc sample_lib (1/2) (- 1/2) 0 (- 1) ''hyper'' = Inl (InvalidDomain S_positive_half_integer) \<and>
   dnlc sample_lib (1/2) (1/2) 0 (- 1) ''bogus'' = Inl InvalidMethod \<and>
   dnlc_laplace sample_lib (1/2) (1/2) 0 (- 1) ''bogus'' = Inl InvalidMethod"
  using negative_order_validates_and_evaluates[of "- 1" sample_lib "3/2" "1/2" 0 "''hyper''"]
    negative_order_validates_and_evaluates[of "- 1" sample_lib "1/2" "- 1/2" 0 "''hyper''"]
    negative_order_validates_and_evaluates[of "- 1" sample_lib "1/2" "1/2" 0 "''bogus''"]
  by (simp add: validate_inputs_def lc_laplace_def)

text \<open>
  Claim C2, as the code has it. For valid input and \<open>n \<le> 0\<close>, \<^verbatim>\<open>dnlc\<close> returns
  \<open>max(0, n + 1)\<close> times the value \<open>v\<close> of \<^verbatim>\<open>lc\<close>; for \<open>n = 0\<close> that is \<open>v\<close> itself; for
  \<open>n < 0\<close> it is \<open>0 * v\<close>, which is 0.0 when \<open>v\<close> is finite and NaN when \<open>v\<close> is an
  infinity or NaN.
\<close>

theorem base_case:
  assumes ok: "validate_inputs alpha s method = Inr ()" and n: "n \<le> 0"
  shows "\<exists>v. lc L alpha s j method = Inr v \<and>
           dnlc L alpha s j n method = Inr (fl_mul (Fin (of_int (max 0 (n + 1)))) v) \<and>
           (n = 0 \<longrightarrow> dnlc L alpha s j n method = lc L alpha s j method) \<and>
           (n < 0 \<longrightarrow> dnlc L alpha s j n method = Inr (if is_finite v then Fin 0 else NaN))"
proof -
  obtain v where v: "lc L alpha s j method = Inr v"
    using lc_valid[OF ok] by blast
  have d: "dnlc L alpha s j n method = Inr (fl_mul (Fin (of_int (max 0 (n + 1)))) v)"
    by (simp add: dnlc_base[OF n] ok v)
  have z: "n = 0 \<Longrightarrow> dnlc L alpha s j n method = lc L alpha s j method"
    using d v by (simp add: fl_mul_one)
  have m: "n < 0 \<Longrightarrow> dnlc L alpha s j n method = Inr (if is_finite v then Fin 0 else NaN)"
    using d by (simp add: fl_mul_zero)
  from v d z m show ?thesis by blast
qed

subsection \<open>The closed form and the 64-bit factorial\<close>

lemma foldl_mul_word: "foldl (\<lambda>acc x. acc * x) a xs = a * prod_list (xs :: 64 word list)"
  by (induction xs arbitrary: a) (simp_all add: mult.assoc)

lemma foldl_mul_real: "foldl (\<lambda>acc x. acc * x) a xs = a * prod_list (xs :: real list)"
  by (induction xs arbitrary: a) (simp_all add: mult.assoc)

lemma upto_1_Suc: "[1 .. int (Suc n)] = [1 .. int n] @ [int (Suc n)]"
  using upto_rec2[of 1 "int (Suc n)"] by simp

lemma prod_fact: "prod_list (map word_of_int [1 .. int n]) = (word_of_nat (fact n) :: 64 word)"
proof (induction n)
  case 0 show ?case by simp
next
  case (Suc n)
  show ?case unfolding upto_1_Suc using Suc by (simp add: algebra_simps)
qed

lemma p_fact: "np_prod_int (arange_int 1 (int n + 1)) = word_of_nat (fact n)"
  by (simp add: np_prod_int_def arange_int_def foldl_mul_word prod_fact)

lemma arange_nat:
  "arange s (s + real k) = map (\<lambda>i. s + real i) [0 ..< k]"
  by (simp add: arange_def)

lemma prod_list_upt_pochhammer:
  "prod_list (map (\<lambda>i. s + real i) [0 ..< k]) = pochhammer s k"
  by (induction k) (simp_all add: pochhammer_rec')

lemma q_pochhammer: "np_prod (arange s (s + real k)) = pochhammer s k"
  by (simp add: np_prod_def foldl_mul_real arange_nat prod_list_upt_pochhammer)

lemma np_power_nat: "np_power alpha (real k) = Fin (alpha ^ k)"
proof -
  have "alpha < 0 \<Longrightarrow> alpha powi \<lfloor>real k\<rfloor> = alpha ^ k"
    by (simp add: power_int_def)
  then show ?thesis
    by (auto simp: np_power_def powr_realpow)
qed

lemma lc_hyper_nat:
  "lc_hyper L alpha s (int k) =
     fl_mul (fl_mul (fl_mul (Fin 2)
        (fl_div (Fin (pochhammer s k)) (Fin (of_int (sint (word_of_nat (fact k) :: 64 word))))))
        (Fin (alpha ^ k)))
        (hyp2f1 L s (s + real k) (real k + 1) (alpha * alpha))"
  using q_pochhammer[of s k] np_power_nat[of alpha k] p_fact[of k]
  by (simp add: lc_hyper_def Let_def add.commute)

lemma lc_hyper_abs: "lc_hyper L alpha s j = lc_hyper L alpha s (int (nat \<bar>j\<bar>))"
  by (simp add: lc_hyper_def)

lemma fact_le_20: "k \<le> 20 \<Longrightarrow> (fact k :: nat) < 2 ^ 63"
proof -
  assume "k \<le> 20"
  then have "(fact k :: nat) \<le> fact 20" by (rule fact_mono)
  also have "(fact 20 :: nat) < 2 ^ 63" by (simp add: fact_numeral)
  finally show ?thesis .
qed

lemma sint_fact_small:
  assumes "k \<le> 20"
  shows "sint (word_of_nat (fact k) :: 64 word) = fact k"
proof -
  have "int (fact k) < 2 ^ 63"
    using fact_le_20[OF assms] by (metis of_nat_less_iff of_nat_numeral of_nat_power)
  moreover have "- (2 ^ 63) \<le> int (fact k)"
    by (rule order_trans[of _ 0]) simp_all
  ultimately have "signed_take_bit 63 (int (fact k)) = int (fact k)"
    by (intro signed_take_bit_int_eq_self)
  then have e: "sint (word_of_int (int (fact k)) :: 64 word) = int (fact k)"
    by (simp only: sint_sbintrunc' len_bit0 len_num1) simp
  have w: "(word_of_nat (fact k) :: 64 word) = word_of_int (int (fact k))"
    by (rule of_int_of_nat_eq[symmetric])
  show ?thesis
    using e unfolding w by (simp only: of_nat_fact)
qed

text \<open>
  Up to \<open>|j| = 20\<close> the 64-bit product is the factorial, and for a half-integer \<open>s\<close>
  (where the model of \<^verbatim>\<open>np.arange(s, s + j)\<close> is the array the code builds) the closed
  form is the specification's formula, rounding apart.
\<close>

lemma lc_hyper_small_j:
  assumes "\<bar>j\<bar> \<le> 20" and "2 * s \<in> \<int>"
  shows "lc_hyper L alpha s j = lc_closed_form_spec L alpha s j"
proof -
  have k: "nat \<bar>j\<bar> \<le> 20" using assms(1) by simp
  have "lc_hyper L alpha s j = lc_hyper L alpha s (int (nat \<bar>j\<bar>))"
    by (rule lc_hyper_abs)
  also have "\<dots> = lc_closed_form_spec L alpha s j"
    unfolding lc_hyper_nat by (simp add: sint_fact_small[OF k] lc_closed_form_spec_def Let_def)
  finally show ?thesis .
qed

lemma f21: "(fact 21 :: nat) = 51090942171709440000"
  by (simp add: fact_numeral)

lemma p21: "sint (np_prod_int (arange_int 1 (21 + 1))) = - 4249290049419214848"
  using p_fact[of 21] by (simp add: f21)

lemma f66: "(word_of_nat (fact 66) :: 64 word) = 0"
  by (simp add: fact_numeral)

text \<open>Instances of the statement on the orders \<open>n \<le> 0\<close>, at \<open>n = 0\<close> and \<open>n = - 2\<close>.\<close>

lemma lc_sample_0: "lc sample_lib (1/2) (1/2) 0 ''hyper'' = Inr (Fin 2)"
  using lc_hyper_nat[of sample_lib "1/2" "1/2" 0]
  by (simp add: lc_valid[OF validate_half] sample_lib_def)

theorem base_case_witness:
  "validate_inputs (1/2) (1/2) ''hyper'' = Inr () \<and> (0::int) \<le> 0 \<and> (- 2 :: int) \<le> 0 \<and>
   dnlc sample_lib (1/2) (1/2) 3 0 ''hyper'' = lc sample_lib (1/2) (1/2) 3 ''hyper'' \<and>
   dnlc sample_lib (1/2) (1/2) 0 (- 2) ''hyper'' = Inr (Fin 0)"
proof -
  have z: "(0::int) \<le> 0" and m: "(- 2 :: int) \<le> 0" by simp_all
  from base_case[OF validate_half z, of sample_lib 3]
  have a: "dnlc sample_lib (1/2) (1/2) 3 0 ''hyper'' = lc sample_lib (1/2) (1/2) 3 ''hyper''"
    by blast
  from base_case[OF validate_half m, of sample_lib 0]
  have b: "dnlc sample_lib (1/2) (1/2) 0 (- 2) ''hyper'' = Inr (Fin 0)"
    by (auto simp: lc_sample_0 is_finite_def)
  from a b validate_half z m show ?thesis by blast
qed

lemma lc_hyper_21: "\<exists>x<0. lc_hyper sample_lib (1/2) (1/2) 21 = Fin x"
proof -
  have s: "sint (word_of_nat (fact 21) :: 64 word) = - 4249290049419214848"
    by (simp add: f21)
  have q: "0 < pochhammer (1/2 :: real) 21"
    by (rule pochhammer_pos) simp
  have "lc_hyper sample_lib (1/2) (1/2) (int 21) =
     Fin (2 * (pochhammer (1/2) 21 / (- 4249290049419214848)) * (1/2) ^ 21 * 1)"
    unfolding lc_hyper_nat s by (simp add: sample_lib_def)
  moreover have "2 * (pochhammer (1/2) 21 / (- 4249290049419214848)) * (1/2) ^ 21 * 1 < (0::real)"
    using q by (simp add: field_simps)
  ultimately show ?thesis by auto
qed

lemma spec_21: "\<exists>y>0. lc_closed_form_spec sample_lib (1/2) (1/2) 21 = Fin y"
proof -
  have q: "0 < pochhammer (1/2 :: real) 21"
    by (rule pochhammer_pos) simp
  have "lc_closed_form_spec sample_lib (1/2) (1/2) 21 =
     Fin (2 * (pochhammer (1/2) 21 / fact 21) * (1/2) ^ 21 * 1)"
    by (simp add: lc_closed_form_spec_def sample_lib_def)
  moreover have "0 < 2 * (pochhammer (1/2) 21 / fact 21) * (1/2) ^ 21 * (1::real)"
    using q by simp
  ultimately show ?thesis by blast
qed

text \<open>
  Claim C3 at \<^verbatim>\<open>lc(0.5, 0.5, 21, "hyper")\<close>. The product of the 64-bit integers
  \<open>1, \<dots>, 21\<close> wraps around to \<open>-4249290049419214848\<close>, which is not \<open>21!\<close>, and the
  result of \<^verbatim>\<open>lc\<close> is not the value of the specification's formula (it has the
  opposite sign).
\<close>

theorem closed_form_factorial_wraps:
  "sint (np_prod_int (arange_int 1 (21 + 1))) = - 4249290049419214848 \<and>
   lc sample_lib (1/2) (1/2) 21 ''hyper'' \<noteq> Inr (lc_closed_form_spec sample_lib (1/2) (1/2) 21)"
proof -
  obtain x y :: real where "x < 0" "0 < y"
    and "lc_hyper sample_lib (1/2) (1/2) 21 = Fin x"
    and "lc_closed_form_spec sample_lib (1/2) (1/2) 21 = Fin y"
    using lc_hyper_21 spec_21 by blast
  then have "lc_hyper sample_lib (1/2) (1/2) 21 \<noteq> lc_closed_form_spec sample_lib (1/2) (1/2) 21"
    by simp
  then show ?thesis
    using p21 by (simp add: lc_def validate_inputs_def)
qed

lemma lc_hyper_66: "\<not> is_finite (lc_hyper L (1/2) (1/2) 66)"
proof -
  have q: "0 < pochhammer (1/2 :: real) 66"
    by (rule pochhammer_pos) simp
  have "lc_hyper L (1/2) (1/2) (int 66) =
     fl_mul PInf (hyp2f1 L (1/2) (1/2 + real 66) (real 66 + 1) (1/2 * (1/2)))"
    unfolding lc_hyper_nat f66 using q by (simp add: signed_inf_def)
  moreover have "\<not> is_finite (fl_mul PInf h)" for h
    by (cases h) (simp_all add: is_finite_def signed_inf_def)
  ultimately show ?thesis by simp
qed

text \<open>
  The claim C2 as worded (0.0 for every \<open>n < 0\<close>) fails at
  \<^verbatim>\<open>dnlc(0.5, 0.5, 66, -1, "hyper")\<close>: the input is valid, \<^verbatim>\<open>lc\<close> returns a value that
  is not finite, and \<open>0\<close> times it is NaN.
\<close>

theorem base_case_counterexample:
  "validate_inputs (1/2) (1/2) ''hyper'' = Inr () \<and> (- 1 :: int) < 0 \<and>
   dnlc sample_lib (1/2) (1/2) 66 (- 1) ''hyper'' = Inr NaN \<and>
   dnlc sample_lib (1/2) (1/2) 66 (- 1) ''hyper'' \<noteq> Inr (Fin 0)"
proof -
  have "dnlc sample_lib (1/2) (1/2) 66 (- 1) ''hyper'' =
          Inr (fl_mul (Fin 0) (lc_hyper sample_lib (1/2) (1/2) 66))"
    by (subst dnlc.simps) (simp add: validate_inputs_def lc_def lift2_def)
  also have "\<dots> = Inr NaN"
    using lc_hyper_66[of sample_lib] by (cases "lc_hyper sample_lib (1/2) (1/2) 66")
      (simp_all add: is_finite_def signed_inf_def)
  finally show ?thesis by (simp add: validate_inputs_def)
qed

subsection \<open>The two methods against each other\<close>

lemma fl_sub_not_finite: "\<not> is_finite a \<Longrightarrow> \<not> is_finite (fl_sub a b)"
  by (cases a; cases b) (simp_all add: is_finite_def fl_sub_def)

text \<open>
  Claim C8 at \<open>alpha = 0.5\<close>, \<open>s = 0.5\<close>, \<open>j = 66\<close> (inside \<open>0 \<le> alpha < 1\<close>,
  \<open>s \<ge> 0\<close>). Both methods accept the input; the closed form returns a value that is
  not finite, because the 64-bit product \<open>1 * 2 * \<dots> * 66\<close> wraps around to 0 and the
  quotient by it is an infinity; so the two results are not within \<open>1e-5\<close> of each
  other, whatever the library routines return.
\<close>

theorem methods_disagree_at_66:
  "validate_inputs (1/2) (1/2) ''hyper'' = Inr () \<and>
   validate_inputs (1/2) (1/2) ''brute'' = Inr () \<and>
   \<not> is_finite (lc_hyper L (1/2) (1/2) 66) \<and>
   \<not> within_tolerance (1/100000) (lc L (1/2) (1/2) 66 ''hyper'') (lc L (1/2) (1/2) 66 ''brute'')"
proof -
  have h: "lc L (1/2) (1/2) 66 ''hyper'' = Inr (lc_hyper L (1/2) (1/2) 66)"
    and b: "lc L (1/2) (1/2) 66 ''brute'' = Inr (lc_brute L (1/2) (1/2) 66)"
    by (simp_all add: lc_def validate_inputs_def)
  have "\<not> is_finite (fl_sub (lc_hyper L (1/2) (1/2) 66) (lc_brute L (1/2) (1/2) 66))"
    by (rule fl_sub_not_finite) (rule lc_hyper_66)
  then have "\<not> within_tolerance (1/100000) (lc L (1/2) (1/2) 66 ''hyper'') (lc L (1/2) (1/2) 66 ''brute'')"
    unfolding h b by (auto simp: within_tolerance_def lift2_def is_finite_def split: fl.splits)
  then show ?thesis
    using lc_hyper_66[of L] by (simp add: validate_inputs_def)
qed

subsection \<open>The calls of the recursion\<close>

lemma subcall_valid:
  "dnlc_subcall c c' \<Longrightarrow>
     (case c of (alpha, s, j, n, m) \<Rightarrow> case c' of (alpha', s', j', n', m') \<Rightarrow>
        alpha' = alpha \<and> m' = m \<and> s' = s + 1 \<and> 0 < n \<and> (n' = n - 1 \<or> n' = n - 2) \<and>
        validate_inputs alpha s m = Inr () \<and> validate_inputs alpha' s' m' = Inr ())"
  by (induction rule: dnlc_subcall.induct) (simp_all add: validate_shift)

lemma reachable_valid:
  assumes "rtranclp dnlc_subcall c c'"
    and "case c of (alpha, s, j, n, m) \<Rightarrow> validate_inputs alpha s m = Inr ()"
  shows "case c' of (alpha', s', j', n', m') \<Rightarrow>
           validate_inputs alpha' s' m' = Inr () \<and> alpha' = fst c \<and> m' = snd (snd (snd (snd c)))"
  using assms
proof (induction rule: rtranclp_induct)
  case base
  then show ?case by (cases c) simp
next
  case (step y z)
  then show ?case
    using subcall_valid[OF step.hyps(2)] by (cases y; cases z) auto
qed

text \<open>
  Claim C5. Every call of \<^verbatim>\<open>dnlc\<close>, whatever its arguments \<open>alpha_c\<close>, \<open>s_c\<close>, \<open>j_c\<close>,
  \<open>n_c\<close>, \<open>method_c\<close> (so each recursive sub-call, on its own shifted arguments),
  validates them through the checks \<^verbatim>\<open>lc\<close> applies: it raises an error \<open>e\<close> exactly
  when \<open>validate_inputs\<close> gives \<open>e\<close> on these arguments, which is exactly when \<^verbatim>\<open>lc\<close>
  raises \<open>e\<close> on them. If the top-level call passes validation, then every call reached
  through the recursion has the same \<open>alpha\<close> and method, passes validation too, and
  neither it nor the \<^verbatim>\<open>lc\<close> call at a leaf raises an error.
\<close>

theorem subcalls_pass_validation:
  assumes ok: "validate_inputs alpha s method = Inr ()"
    and reach: "rtranclp dnlc_subcall (alpha, s, j, n, method) (alpha', s', j', n', method')"
  shows "(dnlc L alpha_c s_c j_c n_c method_c = Inl e \<longleftrightarrow>
            validate_inputs alpha_c s_c method_c = Inl e) \<and>
         (dnlc L alpha_c s_c j_c n_c method_c = Inl e \<longleftrightarrow>
            lc L alpha_c s_c j_c method_c = Inl e) \<and>
         alpha' = alpha \<and> method' = method \<and>
         validate_inputs alpha' s' method' = Inr () \<and>
         (\<exists>v. dnlc L alpha' s' j' n' method' = Inr v) \<and>
         (\<exists>v. lc L alpha' s' j' method' = Inr v)"
proof -
  have "case (alpha, s, j, n, method) of (alpha, s, j, n, m) \<Rightarrow> validate_inputs alpha s m = Inr ()"
    using ok by simp
  from reachable_valid[OF reach this]
  have "validate_inputs alpha' s' method' = Inr () \<and> alpha' = alpha \<and> method' = method"
    by auto
  then have v: "validate_inputs alpha' s' method' = Inr ()"
    and a: "alpha' = alpha" and m: "method' = method"
    by blast+
  have c1: "dnlc L alpha_c s_c j_c n_c method_c = Inl e \<longleftrightarrow>
      validate_inputs alpha_c s_c method_c = Inl e"
    by (rule dnlc_error_iff)
  have c2: "dnlc L alpha_c s_c j_c n_c method_c = Inl e \<longleftrightarrow>
      lc L alpha_c s_c j_c method_c = Inl e"
    by (simp add: dnlc_error_iff lc_error_iff)
  from dnlc_valid_Inr[OF v] lc_valid[OF v] v a m c1 c2 show ?thesis by blast
qed

theorem subcalls_pass_validation_witness:
  "validate_inputs (1/2) (1/2) ''brute'' = Inr () \<and>
   rtranclp dnlc_subcall (1/2, 1/2, 0, 2, ''brute'') (1/2, 1/2 + 1, 0, 2 - 2, ''brute'') \<and>
   validate_inputs (1/2) (1/2 + 1) ''brute'' = Inr () \<and>
   (\<exists>v. dnlc sample_lib (1/2) (1/2 + 1) 0 (2 - 2) ''brute'' = Inr v) \<and>
   (\<exists>v. lc sample_lib (1/2) (1/2 + 1) 0 ''brute'' = Inr v) \<and>
   dnlc sample_lib (1/2) (- 3/2) 0 2 ''brute'' = Inl (InvalidDomain S_positive_half_integer) \<and>
   lc sample_lib (1/2) (- 3/2) 0 ''brute'' = Inl (InvalidDomain S_positive_half_integer)"
proof -
  have ok: "validate_inputs (1/2) (1/2) ''brute'' = Inr ()"
    by (simp add: validate_inputs_def)
  have n: "(0::int) < 2" by simp
  have reach: "rtranclp dnlc_subcall (1/2, 1/2, 0, 2, ''brute'') (1/2, 1/2 + 1, 0, 2 - 2, ''brute'')"
    by (rule r_into_rtranclp) (rule fourth[OF ok n])
  have bad: "validate_inputs (1/2) (- 3/2) ''brute'' = Inl (InvalidDomain S_positive_half_integer)"
    by (simp add: validate_inputs_def)
  note t = subcalls_pass_validation[OF ok reach, where L = sample_lib and alpha_c = "1/2"
      and s_c = "- 3/2" and j_c = 0 and n_c = 2 and method_c = "''brute''"
      and e = "InvalidDomain S_positive_half_integer"]
  from t bad have d: "dnlc sample_lib (1/2) (- 3/2) 0 2 ''brute'' = Inl (InvalidDomain S_positive_half_integer)"
    by blast
  from t d have l: "lc sample_lib (1/2) (- 3/2) 0 ''brute'' = Inl (InvalidDomain S_positive_half_integer)"
    by blast
  from t ok reach d l show ?thesis by blast
qed

subsection \<open>Termination and depth\<close>

lemma opt_lift2_Some: "opt_lift2 f (Some x) (Some y) = Some (lift2 f x y)"
  by (simp add: opt_lift2_def lift2_def split: sum.splits)

lemma depth_enough:
  "nat n < k \<Longrightarrow> dnlc_depth k L alpha s j n method = Some (dnlc L alpha s j n method)"
proof (induction k arbitrary: s j n)
  case 0
  then show ?case by simp
next
  case (Suc k)
  show ?case
  proof (cases "n \<le> 0")
    case True
    then show ?thesis
      by (subst dnlc.simps) (simp split: sum.splits)
  next
    case False
    then have a: "nat (n - 1) < k" and b: "nat (n - 2) < k" using Suc.prems by linarith+
    show ?thesis
      by (subst dnlc.simps) (simp add: False Suc.IH[OF a] Suc.IH[OF b] opt_lift2_Some split: sum.splits)
  qed
qed

lemma depth_short:
  "validate_inputs alpha s method = Inr () \<Longrightarrow> k \<le> nat n \<Longrightarrow>
     dnlc_depth k L alpha s j n method = None"
proof (induction k arbitrary: s j n)
  case 0
  then show ?case by simp
next
  case (Suc k)
  then have n: "\<not> n \<le> 0" and a: "k \<le> nat (n - 1)" by linarith+
  from Suc.IH[OF validate_shift[OF Suc.prems(1)] a]
  have "dnlc_depth k L alpha (s + 1) (j - 1) (n - 1) method = None" .
  then show ?case
    using n Suc.prems(1) by (simp add: opt_lift2_def)
qed

text \<open>
  Claim C9. \<^verbatim>\<open>dnlc\<close> returns on every input and for every integer \<open>n\<close>: the defining
  recursion is total (each sub-call has order \<open>n - 1\<close> or \<open>n - 2\<close> and is made only when
  \<open>n > 0\<close>), and \<open>max(0, n) + 1\<close> frames are enough to run it. For valid input no fewer
  frames are: below the top-level call the recursion is exactly \<open>max(0, n)\<close> calls deep.
\<close>

theorem dnlc_terminates:
  "dnlc_depth (Suc (nat n)) L alpha s j n method = Some (dnlc L alpha s j n method) \<and>
   (nat n < k \<longrightarrow> dnlc_depth k L alpha s j n method = Some (dnlc L alpha s j n method)) \<and>
   (validate_inputs alpha s method = Inr () \<longrightarrow>
      (dnlc_depth k L alpha s j n method = None \<longleftrightarrow> k \<le> nat n)) \<and>
   (dnlc_subcall (alpha, s, j, n, method) (alpha', s', j', n', method') \<longrightarrow>
      0 < n \<and> (n' = n - 1 \<or> n' = n - 2))"
proof -
  have 1: "dnlc_depth (Suc (nat n)) L alpha s j n method = Some (dnlc L alpha s j n method)"
    by (rule depth_enough) simp
  have 2: "validate_inputs alpha s method = Inr () \<Longrightarrow>
      (dnlc_depth k L alpha s j n method = None \<longleftrightarrow> k \<le> nat n)"
    using depth_short[of alpha s "method" k n L j] depth_enough[of n k L alpha s j "method"]
    by (cases "k \<le> nat n") auto
  have 3: "dnlc_subcall (alpha, s, j, n, method) (alpha', s', j', n', method') \<Longrightarrow>
      0 < n \<and> (n' = n - 1 \<or> n' = n - 2)"
    using subcall_valid[of "(alpha, s, j, n, method)" "(alpha', s', j', n', method')"] by simp
  from 1 2 3 depth_enough[of n k L alpha s j "method"] show ?thesis by blast
qed

theorem dnlc_terminates_witness:
  "dnlc_depth (Suc (nat 2)) sample_lib (1/2) (1/2) 0 2 ''hyper'' =
     Some (dnlc sample_lib (1/2) (1/2) 0 2 ''hyper'') \<and>
   nat 2 < (5::nat) \<and>
   dnlc_depth 5 sample_lib (1/2) (1/2) 0 2 ''hyper'' = Some (dnlc sample_lib (1/2) (1/2) 0 2 ''hyper'') \<and>
   validate_inputs (1/2) (1/2) ''hyper'' = Inr () \<and> (2::nat) \<le> nat 2 \<and>
   dnlc_depth 2 sample_lib (1/2) (1/2) 0 2 ''hyper'' = None \<and>
   dnlc_subcall (1/2, 1/2, 0, 2, ''hyper'') (1/2, 1/2 + 1, 0, 2 - 2, ''hyper'') \<and>
   (0::int) < 2 \<and> ((2::int) - 2 = 2 - 1 \<or> (2::int) - 2 = 2 - 2)"
proof -
  have n: "(0::int) < 2" by simp
  note t5 = dnlc_terminates[of 2 sample_lib "1/2" "1/2" 0 "''hyper''" 5 "1/2" "1/2 + 1" 0 "2 - 2" "''hyper''"]
  note t2 = dnlc_terminates[of 2 sample_lib "1/2" "1/2" 0 "''hyper''" 2 "1/2" "1/2 + 1" 0 "2 - 2" "''hyper''"]
  have a: "dnlc_depth (Suc (nat 2)) sample_lib (1/2) (1/2) 0 2 ''hyper'' =
     Some (dnlc sample_lib (1/2) (1/2) 0 2 ''hyper'')"
    using t5 by blast
  have l: "nat 2 < (5::nat)" by simp
  have b: "dnlc_depth 5 sample_lib (1/2) (1/2) 0 2 ''hyper'' =
     Some (dnlc sample_lib (1/2) (1/2) 0 2 ''hyper'')"
    using t5 l by blast
  have k: "(2::nat) \<le> nat 2" by simp
  have c: "dnlc_depth 2 sample_lib (1/2) (1/2) 0 2 ''hyper'' = None"
    using t2 validate_half k by blast
  have d: "dnlc_subcall (1/2, 1/2, 0, 2, ''hyper'') (1/2, 1/2 + 1, 0, 2 - 2, ''hyper'')"
    by (rule fourth[OF validate_half n])
  have e: "(0::int) < 2 \<and> ((2::int) - 2 = 2 - 1 \<or> (2::int) - 2 = 2 - 2)"
    using t2 d by blast
  from a l b validate_half k c d e show ?thesis by blast
qed

end
